theory Spec2Isabelle
  imports Main "HOL-Library.AList"
begin

section \<open>The session manager of src/lsp-manager.ts\<close>

text \<open>
  \<^verbatim>\<open>LSPManager\<close> keeps one private table, \<^verbatim>\<open>servers\<close>, from session identifiers to
  \<^verbatim>\<open>LSPServerInfo\<close> objects, and every method is a short piece of synchronous code around
  calls on the session's JSON-RPC connection. The model below is a state-passing one.

  \<^item> A JavaScript \<^verbatim>\<open>Map\<close> iterates in insertion order, \<^verbatim>\<open>set\<close> on a present key keeps
    the key's place and \<^verbatim>\<open>delete\<close> removes it: that is an association list with
    \<open>AList.update\<close>, \<open>AList.delete\<close> and \<open>map_of\<close>. A field write on an object held in
    the map (\<^verbatim>\<open>serverInfo.initialized = true\<close>, \<^verbatim>\<open>server.documents.set(...)\<close>) is
    \<open>AList.map_entry\<close>.
  \<^item> The child process and the connection of a session are objects outside the manager.
    They are named by the session's key, and everything the manager does to them is
    appended to a trace of effects, oldest first.
  \<^item> An awaited call on the connection either fulfils or rejects. How it settles is
    decided by the language server, so it is an argument of the model: \<open>Inr v\<close> for a
    promise fulfilled with \<open>v\<close>, \<open>Inl e\<close> for one rejected with \<open>e\<close>. A promise that never
    settles gives no return at all and is not a value of these arguments.
  \<^item> Every \<^verbatim>\<open>throw\<close> is a result \<open>Inl e\<close>. A call on the connection that throws
    before it returns a promise is not told apart from one whose promise rejects: under
    \<^verbatim>\<open>try\<close> and \<^verbatim>\<open>await\<close> both reach the same \<^verbatim>\<open>catch\<close>.
  \<^item> The \<^verbatim>\<open>error\<close> and \<^verbatim>\<open>exit\<close> events of a child process and the messages it
    pushes are transitions of their own; a method call is modelled with no such event
    falling between its \<^verbatim>\<open>await\<close>s.
  \<^item> Document versions and positions are JavaScript numbers; they are modelled by \<open>nat\<close>
    and \<open>int\<close>, which agree with them below \<open>2 ^ 53\<close>.
\<close>

subsection \<open>Data\<close>

type_synonym server_id = string
type_synonym uri = string

text \<open>A JSON value produced by the language server and handed through unchanged.\<close>

type_synonym payload = string
type_synonym diagnostic = string

text \<open>
  The source throws plain \<^verbatim>\<open>Error\<close> objects told apart by their message; the
  constructors carry the spec's names for them:
  \<^verbatim>\<open>Server ${serverId} not found\<close>, \<^verbatim>\<open>No language server configured for ${language}\<close>,
  \<^verbatim>\<open>Document ${fileUri} not open\<close>. \<open>Failure\<close> is any error raised by the connection
  or the subprocess.
\<close>

datatype error =
    SessionNotFound server_id
  | UnsupportedLanguage string
  | DocumentNotOpen uri
  | Failure string

text \<open>
  The requests and notifications the manager sends, with the parameters it fills in.
  The capability record of \<^verbatim>\<open>initialize\<close> is a constant and is left out.
\<close>

datatype request =
    Initialize string
  | Shutdown
  | Completion uri int int
  | Hover uri int int
  | Definition uri int int
  | References uri int int bool
  | Rename uri int int string
  | Formatting uri nat bool
  | DocumentSymbol uri

datatype notification =
    Initialized
  | Exit
  | DidOpen uri string nat string
  | DidChange uri nat string
  | DidClose uri

datatype effect =
    Spawn server_id string "string list"
  | Listen server_id
  | SendRequest server_id request
  | SendNotification server_id notification
  | Dispose server_id
  | Kill server_id
  | ConsoleError string

text \<open>\<^verbatim>\<open>TextDocument.create(uri, languageId, version, content)\<close>.\<close>

record text_document =
  doc_uri :: uri
  doc_languageId :: string
  doc_version :: nat
  doc_content :: string

text \<open>
  \<^verbatim>\<open>LSPServerInfo\<close>. Its \<^verbatim>\<open>process\<close> and \<^verbatim>\<open>connection\<close> fields are the external
  objects named by the session's key.
\<close>

record server_info =
  srv_id :: server_id
  srv_language :: string
  srv_workspaceUri :: string
  srv_documents :: "(uri \<times> text_document) list"
  srv_initialized :: bool

text \<open>
  A call of \<^verbatim>\<open>stopServer\<close> that is suspended at one of its two \<^verbatim>\<open>await\<close>s: at the
  \<^verbatim>\<open>shutdown\<close> request (line 225) or at the \<^verbatim>\<open>exit\<close> notification (line 226).
\<close>

datatype stop_task = AwaitShutdown server_id | AwaitExit server_id

text \<open>
  The manager's table, the trace of effects, and the calls of \<^verbatim>\<open>stopServer\<close> that
  were started without \<^verbatim>\<open>await\<close> and are still suspended.
\<close>

record world =
  servers :: "(server_id \<times> server_info) list"
  effects :: "effect list"
  unawaited :: "stop_task list"

definition emit :: "effect \<Rightarrow> world \<Rightarrow> world" where
  "emit e w = w\<lparr>effects := effects w @ [e]\<rparr>"

subsection \<open>Starting a session\<close>

definition languageServerCommands :: "(string \<times> string \<times> string list) list" where
  "languageServerCommands =
    [(''typescript'', ''typescript-language-server'', [''--stdio'']),
     (''python'', ''pylsp'', []),
     (''rust'', ''rust-analyzer'', []),
     (''go'', ''gopls'', []),
     (''java'', ''jdtls'', []),
     (''cpp'', ''clangd'', [])]"

text \<open>
  Lines 59 to 72 of \<^verbatim>\<open>startServer\<close>. \<^verbatim>\<open>if (customCommand)\<close> is a truthiness test: an
  absent command and the empty string both take the table branch. \<^verbatim>\<open>customArgs || []\<close>
  keeps every array, the empty one too.
\<close>

definition resolveCommand ::
  "string \<Rightarrow> string option \<Rightarrow> string list option \<Rightarrow> error + string \<times> string list" where
  "resolveCommand language customCommand customArgs =
    (case (case customCommand of
             None \<Rightarrow> None
           | Some c \<Rightarrow> if c = [] then None else Some c) of
       Some command \<Rightarrow> Inr (command, case customArgs of None \<Rightarrow> [] | Some a \<Rightarrow> a)
     | None \<Rightarrow>
         (case map_of languageServerCommands language of
            None \<Rightarrow> Inl (UnsupportedLanguage language)
          | Some serverConfig \<Rightarrow> Inr serverConfig))"

text \<open>
  The synchronous head of \<^verbatim>\<open>stopServer\<close> (lines 218 to 225): the lookup, and the
  \<^verbatim>\<open>shutdown\<close> request handed to the connection. The call then waits for the reply.
\<close>

definition stopServer_begin :: "world \<Rightarrow> server_id \<Rightarrow> (error + stop_task) \<times> world" where
  "stopServer_begin w serverId =
    (case map_of (servers w) serverId of
       None \<Rightarrow> (Inl (SessionNotFound serverId), w)
     | Some server \<Rightarrow>
         (Inr (AwaitShutdown serverId), emit (SendRequest serverId Shutdown) w))"

text \<open>
  Lines 231 to 233: dispose of the connection, kill the process, drop the entry.
  \<^verbatim>\<open>dispose()\<close> and \<^verbatim>\<open>kill()\<close> report nothing by exception, so the three always run.
\<close>

definition teardown :: "world \<Rightarrow> server_id \<Rightarrow> world" where
  "teardown w serverId =
    (emit (Kill serverId) (emit (Dispose serverId) w))
      \<lparr>servers := AList.delete serverId (servers w)\<rparr>"

text \<open>
  What a suspended \<^verbatim>\<open>stopServer\<close> does when the promise it waits for settles. A
  fulfilled \<^verbatim>\<open>shutdown\<close> is followed by the \<^verbatim>\<open>exit\<close> notification and a second wait; a
  rejection at either point is logged by the \<^verbatim>\<open>catch\<close> block; the teardown follows in
  every case. The result is the next suspension, or \<open>None\<close> when the call has returned.
\<close>

fun stopServer_resume ::
  "world \<Rightarrow> stop_task \<Rightarrow> error + unit \<Rightarrow> stop_task option \<times> world" where
  "stopServer_resume w (AwaitShutdown serverId) (Inr u) =
     (Some (AwaitExit serverId), emit (SendNotification serverId Exit) w)"
| "stopServer_resume w (AwaitShutdown serverId) (Inl err) =
     (None, teardown (emit (ConsoleError ''Error during server shutdown:'') w) serverId)"
| "stopServer_resume w (AwaitExit serverId) (Inr u) =
     (None, teardown w serverId)"
| "stopServer_resume w (AwaitExit serverId) (Inl err) =
     (None, teardown (emit (ConsoleError ''Error during server shutdown:'') w) serverId)"

text \<open>
  The \<^verbatim>\<open>catch\<close> block of the handshake (lines 208 to 212). \<^verbatim>\<open>this.stopServer(serverId)\<close>
  is called without \<^verbatim>\<open>await\<close>: it runs up to its first suspension and the error is
  rethrown at once. The reply to its \<^verbatim>\<open>shutdown\<close> request needs a round trip to the
  subprocess, so the rest of that call is still to come when the caller of
  \<^verbatim>\<open>startServer\<close> sees the rejection. (The model takes the request as handed to a
  connection that is up, which is the case when the language server has answered
  \<^verbatim>\<open>initialize\<close> with an error.) A \<^verbatim>\<open>stopServer\<close> that finds no entry rejects a
  promise nobody looks at.
\<close>

definition handshakeFailed :: "world \<Rightarrow> server_id \<Rightarrow> error \<Rightarrow> (error + server_id) \<times> world" where
  "handshakeFailed w serverId err =
    (case stopServer_begin (emit (ConsoleError ''Failed to initialize language server:'') w) serverId of
       (Inl e, w') \<Rightarrow> (Inl err, w')
     | (Inr task, w') \<Rightarrow> (Inl err, w'\<lparr>unawaited := unawaited w' @ [task]\<rparr>))"

text \<open>
  \<^verbatim>\<open>startServer\<close>. \<open>serverId\<close> is the value of \<^verbatim>\<open>uuidv4()\<close>; \<open>initializeReply\<close> and
  \<open>initializedSent\<close> say how the \<^verbatim>\<open>initialize\<close> request and the \<^verbatim>\<open>initialized\<close>
  notification settle.
\<close>

definition startServer ::
  "world \<Rightarrow> string \<Rightarrow> string \<Rightarrow> string option \<Rightarrow> string list option \<Rightarrow>
   server_id \<Rightarrow> error + payload \<Rightarrow> error + unit \<Rightarrow> (error + server_id) \<times> world" where
  "startServer w language workspaceUri customCommand customArgs serverId initializeReply initializedSent =
    (case resolveCommand language customCommand customArgs of
       Inl e \<Rightarrow> (Inl e, w)
     | Inr (command, args) \<Rightarrow>
         (let serverInfo = \<lparr>srv_id = serverId, srv_language = language,
                srv_workspaceUri = workspaceUri, srv_documents = [], srv_initialized = False\<rparr>;
              w1 = (emit (Listen serverId) (emit (Spawn serverId command args) w))
                     \<lparr>servers := AList.update serverId serverInfo (servers w)\<rparr>;
              w2 = emit (SendRequest serverId (Initialize workspaceUri)) w1
          in (case initializeReply of
                Inl err \<Rightarrow> handshakeFailed w2 serverId err
              | Inr result \<Rightarrow>
                  (let w3 = emit (SendNotification serverId Initialized) w2
                   in (case initializedSent of
                         Inl err \<Rightarrow> handshakeFailed w3 serverId err
                       | Inr u \<Rightarrow>
                           (Inr serverId,
                            w3\<lparr>servers := AList.map_entry serverId
                                 (\<lambda>s. s\<lparr>srv_initialized := True\<rparr>) (servers w3)\<rparr>))))))"

text \<open>
  The handlers of the child process's \<^verbatim>\<open>error\<close> and \<^verbatim>\<open>exit\<close> events (lines 79 to 87):
  each logs and drops the entry.
\<close>

definition onProcessError :: "world \<Rightarrow> server_id \<Rightarrow> world" where
  "onProcessError w serverId =
    (emit (ConsoleError ''Language server error:'') w)
      \<lparr>servers := AList.delete serverId (servers w)\<rparr>"

definition onProcessExit :: "world \<Rightarrow> server_id \<Rightarrow> world" where
  "onProcessExit w serverId =
    (emit (ConsoleError ''Language server exited'') w)
      \<lparr>servers := AList.delete serverId (servers w)\<rparr>"

text \<open>
  A message pushed by the subprocess. The connection is created and set listening on
  lines 90 to 96 and no handler is ever registered on it, so a notification that
  arrives changes nothing the manager holds.
\<close>

datatype incoming = PublishDiagnostics uri "diagnostic list" | OtherNotification string

definition onNotification :: "world \<Rightarrow> server_id \<Rightarrow> incoming \<Rightarrow> world" where
  "onNotification w serverId message = w"

subsection \<open>Stopping sessions\<close>

text \<open>
  \<^verbatim>\<open>stopServer\<close> awaited to its end: \<open>shutdownReply\<close> and \<open>exitSent\<close> say how the
  \<^verbatim>\<open>shutdown\<close> request and the \<^verbatim>\<open>exit\<close> notification settle (the second is not
  consulted when the first rejects).
\<close>

definition stopServer ::
  "world \<Rightarrow> server_id \<Rightarrow> error + unit \<Rightarrow> error + unit \<Rightarrow> (error + unit) \<times> world" where
  "stopServer w serverId shutdownReply exitSent =
    (case stopServer_begin w serverId of
       (Inl e, w1) \<Rightarrow> (Inl e, w1)
     | (Inr task, w1) \<Rightarrow>
         (case stopServer_resume w1 task shutdownReply of
            (None, w2) \<Rightarrow> (Inr (), w2)
          | (Some task', w2) \<Rightarrow> (Inr (), snd (stopServer_resume w2 task' exitSent))))"

fun task_id :: "stop_task \<Rightarrow> server_id" where
  "task_id (AwaitShutdown serverId) = serverId"
| "task_id (AwaitExit serverId) = serverId"

text \<open>
  \<^verbatim>\<open>stopAllServers\<close> maps \<^verbatim>\<open>stopServer(id).catch(...)\<close> over the keys of the table, so
  the synchronous head of every call runs, in key order, before any of them resumes.
  A call that rejects is logged by its \<^verbatim>\<open>catch\<close> and counts as finished.
\<close>

fun stopAll_begin :: "world \<Rightarrow> server_id list \<Rightarrow> stop_task list \<times> world" where
  "stopAll_begin w [] = ([], w)"
| "stopAll_begin w (serverId # ids) =
    (case stopServer_begin w serverId of
       (Inl e, w1) \<Rightarrow> stopAll_begin (emit (ConsoleError ''Error stopping server'') w1) ids
     | (Inr task, w1) \<Rightarrow>
         (case stopAll_begin w1 ids of (tasks, w2) \<Rightarrow> (task # tasks, w2)))"

text \<open>
  The suspended calls resume one at a time, in the order in which the language servers
  answer. An event \<open>(serverId, reply)\<close> settles the promise that the first suspended
  call for \<open>serverId\<close> waits for; an event for a session with no suspended call finds
  nobody waiting.
\<close>

fun settle ::
  "world \<Rightarrow> stop_task list \<Rightarrow> server_id \<times> (error + unit) \<Rightarrow> stop_task list \<times> world" where
  "settle w [] ev = ([], w)"
| "settle w (task # tasks) ev =
    (if task_id task = fst ev
     then (case stopServer_resume w task (snd ev) of
             (None, w') \<Rightarrow> (tasks, w')
           | (Some task', w') \<Rightarrow> (task' # tasks, w'))
     else (case settle w tasks ev of (tasks', w') \<Rightarrow> (task # tasks', w')))"

fun settle_all ::
  "world \<Rightarrow> stop_task list \<Rightarrow> (server_id \<times> (error + unit)) list \<Rightarrow> stop_task list \<times> world" where
  "settle_all w tasks [] = (tasks, w)"
| "settle_all w tasks (ev # evs) =
    (case settle w tasks ev of (tasks', w') \<Rightarrow> settle_all w' tasks' evs)"

text \<open>
  The sweep as far as the replies received so far take it: the calls still suspended,
  and the state. With no reply at all this is the state right after the synchronous
  heads have run.
\<close>

definition stopAll_progress ::
  "world \<Rightarrow> (server_id \<times> (error + unit)) list \<Rightarrow> stop_task list \<times> world" where
  "stopAll_progress w replies =
    (case stopAll_begin w (map fst (servers w)) of
       (tasks, w1) \<Rightarrow> settle_all w1 tasks replies)"

text \<open>
  \<^verbatim>\<open>await Promise.all(stopPromises)\<close> returns once every call has finished. \<open>replies\<close>
  is the sequence of settlements the language servers produce; the result is \<open>None\<close>
  when it leaves a call suspended, that is, when \<^verbatim>\<open>stopAllServers\<close> has not returned.
\<close>

definition stopAllServers ::
  "world \<Rightarrow> (server_id \<times> (error + unit)) list \<Rightarrow> ((error + unit) \<times> world) option" where
  "stopAllServers w replies =
    (case stopAll_progress w replies of
       (rest, w2) \<Rightarrow> if rest = [] then Some (Inr (), w2) else None)"

text \<open>The replies that concern one session, in the order in which they arrive.\<close>

definition own_replies ::
  "server_id \<Rightarrow> (server_id \<times> (error + unit)) list \<Rightarrow> (error + unit) list" where
  "own_replies serverId replies = map snd (filter (\<lambda>ev. fst ev = serverId) replies)"

text \<open>
  The replies are enough for a suspended \<^verbatim>\<open>stopServer\<close> to run to its end: at the
  \<^verbatim>\<open>shutdown\<close> request a rejection, or a fulfilment followed by any settlement of the
  \<^verbatim>\<open>exit\<close> notification; at the \<^verbatim>\<open>exit\<close> notification any settlement.
\<close>

fun completes :: "stop_task \<Rightarrow> (error + unit) list \<Rightarrow> bool" where
  "completes (AwaitShutdown serverId) [] = False"
| "completes (AwaitShutdown serverId) (Inl err # rs) = True"
| "completes (AwaitShutdown serverId) (Inr u # rs) = completes (AwaitExit serverId) rs"
| "completes (AwaitExit serverId) [] = False"
| "completes (AwaitExit serverId) (r # rs) = True"

subsection \<open>Queries\<close>

definition getDiagnostics :: "world \<Rightarrow> server_id \<Rightarrow> uri \<Rightarrow> error + diagnostic list" where
  "getDiagnostics w serverId fileUri =
    (case map_of (servers w) serverId of
       None \<Rightarrow> Inl (SessionNotFound serverId)
     | Some server \<Rightarrow> Inr [])"

text \<open>
  The seven request methods share one shape: the lookup, the request handed to the
  session's connection, and a \<^verbatim>\<open>try\<close> around the awaited reply whose \<^verbatim>\<open>catch\<close> logs
  and returns \<^verbatim>\<open>null\<close>. \<open>reply\<close> says how the request settles; a fulfilled reply is
  returned as it is, and may itself be \<^verbatim>\<open>null\<close> (\<open>None\<close>).
\<close>

definition getCompletions ::
  "world \<Rightarrow> server_id \<Rightarrow> uri \<Rightarrow> int \<Rightarrow> int \<Rightarrow> error + payload option \<Rightarrow>
   (error + payload option) \<times> world" where
  "getCompletions w serverId fileUri line character reply =
    (case map_of (servers w) serverId of
       None \<Rightarrow> (Inl (SessionNotFound serverId), w)
     | Some server \<Rightarrow>
         (let w1 = emit (SendRequest serverId (Completion fileUri line character)) w
          in (case reply of
                Inr result \<Rightarrow> (Inr result, w1)
              | Inl err \<Rightarrow> (Inr None, emit (ConsoleError ''Error getting completions:'') w1))))"

definition getHover ::
  "world \<Rightarrow> server_id \<Rightarrow> uri \<Rightarrow> int \<Rightarrow> int \<Rightarrow> error + payload option \<Rightarrow>
   (error + payload option) \<times> world" where
  "getHover w serverId fileUri line character reply =
    (case map_of (servers w) serverId of
       None \<Rightarrow> (Inl (SessionNotFound serverId), w)
     | Some server \<Rightarrow>
         (let w1 = emit (SendRequest serverId (Hover fileUri line character)) w
          in (case reply of
                Inr result \<Rightarrow> (Inr result, w1)
              | Inl err \<Rightarrow> (Inr None, emit (ConsoleError ''Error getting hover:'') w1))))"

definition goToDefinition ::
  "world \<Rightarrow> server_id \<Rightarrow> uri \<Rightarrow> int \<Rightarrow> int \<Rightarrow> error + payload option \<Rightarrow>
   (error + payload option) \<times> world" where
  "goToDefinition w serverId fileUri line character reply =
    (case map_of (servers w) serverId of
       None \<Rightarrow> (Inl (SessionNotFound serverId), w)
     | Some server \<Rightarrow>
         (let w1 = emit (SendRequest serverId (Definition fileUri line character)) w
          in (case reply of
                Inr result \<Rightarrow> (Inr result, w1)
              | Inl err \<Rightarrow> (Inr None, emit (ConsoleError ''Error going to definition:'') w1))))"

definition findReferences ::
  "world \<Rightarrow> server_id \<Rightarrow> uri \<Rightarrow> int \<Rightarrow> int \<Rightarrow> bool \<Rightarrow> error + payload option \<Rightarrow>
   (error + payload option) \<times> world" where
  "findReferences w serverId fileUri line character includeDeclaration reply =
    (case map_of (servers w) serverId of
       None \<Rightarrow> (Inl (SessionNotFound serverId), w)
     | Some server \<Rightarrow>
         (let w1 = emit (SendRequest serverId
                      (References fileUri line character includeDeclaration)) w
          in (case reply of
                Inr result \<Rightarrow> (Inr result, w1)
              | Inl err \<Rightarrow> (Inr None, emit (ConsoleError ''Error finding references:'') w1))))"

definition renameSymbol ::
  "world \<Rightarrow> server_id \<Rightarrow> uri \<Rightarrow> int \<Rightarrow> int \<Rightarrow> string \<Rightarrow> error + payload option \<Rightarrow>
   (error + payload option) \<times> world" where
  "renameSymbol w serverId fileUri line character newName reply =
    (case map_of (servers w) serverId of
       None \<Rightarrow> (Inl (SessionNotFound serverId), w)
     | Some server \<Rightarrow>
         (let w1 = emit (SendRequest serverId (Rename fileUri line character newName)) w
          in (case reply of
                Inr result \<Rightarrow> (Inr result, w1)
              | Inl err \<Rightarrow> (Inr None, emit (ConsoleError ''Error renaming symbol:'') w1))))"

definition formatDocument ::
  "world \<Rightarrow> server_id \<Rightarrow> uri \<Rightarrow> error + payload option \<Rightarrow>
   (error + payload option) \<times> world" where
  "formatDocument w serverId fileUri reply =
    (case map_of (servers w) serverId of
       None \<Rightarrow> (Inl (SessionNotFound serverId), w)
     | Some server \<Rightarrow>
         (let w1 = emit (SendRequest serverId (Formatting fileUri 2 True)) w
          in (case reply of
                Inr result \<Rightarrow> (Inr result, w1)
              | Inl err \<Rightarrow> (Inr None, emit (ConsoleError ''Error formatting document:'') w1))))"

definition getDocumentSymbols ::
  "world \<Rightarrow> server_id \<Rightarrow> uri \<Rightarrow> error + payload option \<Rightarrow>
   (error + payload option) \<times> world" where
  "getDocumentSymbols w serverId fileUri reply =
    (case map_of (servers w) serverId of
       None \<Rightarrow> (Inl (SessionNotFound serverId), w)
     | Some server \<Rightarrow>
         (let w1 = emit (SendRequest serverId (DocumentSymbol fileUri)) w
          in (case reply of
                Inr result \<Rightarrow> (Inr result, w1)
              | Inl err \<Rightarrow> (Inr None, emit (ConsoleError ''Error getting document symbols:'') w1))))"

definition listServers :: "world \<Rightarrow> (server_id \<times> string \<times> string \<times> bool) list" where
  "listServers w =
    map (\<lambda>(k, server). (srv_id server, srv_language server, srv_workspaceUri server,
                         srv_initialized server)) (servers w)"

subsection \<open>Documents\<close>

text \<open>\<^verbatim>\<open>server.documents\<close> is written through the object held in the table.\<close>

definition set_documents ::
  "world \<Rightarrow> server_id \<Rightarrow> (uri \<times> text_document) list \<Rightarrow> world" where
  "set_documents w serverId docs =
    w\<lparr>servers := AList.map_entry serverId (\<lambda>s. s\<lparr>srv_documents := docs\<rparr>) (servers w)\<rparr>"

text \<open>
  In the three document methods the table is written before the notification is
  handed to the connection; \<open>sent\<close> says how that awaited notification settles, and a
  rejection is what the method then throws.
\<close>

definition openDocument ::
  "world \<Rightarrow> server_id \<Rightarrow> uri \<Rightarrow> string \<Rightarrow> string \<Rightarrow> error + unit \<Rightarrow> (error + unit) \<times> world" where
  "openDocument w serverId fileUri content languageId sent =
    (case map_of (servers w) serverId of
       None \<Rightarrow> (Inl (SessionNotFound serverId), w)
     | Some server \<Rightarrow>
         (let document = \<lparr>doc_uri = fileUri, doc_languageId = languageId,
                           doc_version = 1, doc_content = content\<rparr>;
              w1 = set_documents w serverId
                     (AList.update fileUri document (srv_documents server))
          in (sent,
              emit (SendNotification serverId (DidOpen fileUri languageId 1 content)) w1)))"

definition updateDocument ::
  "world \<Rightarrow> server_id \<Rightarrow> uri \<Rightarrow> string \<Rightarrow> error + unit \<Rightarrow> (error + unit) \<times> world" where
  "updateDocument w serverId fileUri content sent =
    (case map_of (servers w) serverId of
       None \<Rightarrow> (Inl (SessionNotFound serverId), w)
     | Some server \<Rightarrow>
         (case map_of (srv_documents server) fileUri of
            None \<Rightarrow> (Inl (DocumentNotOpen fileUri), w)
          | Some document \<Rightarrow>
              (let newVersion = doc_version document + 1;
                   newDocument = \<lparr>doc_uri = fileUri, doc_languageId = doc_languageId document,
                                  doc_version = newVersion, doc_content = content\<rparr>;
                   w1 = set_documents w serverId
                          (AList.update fileUri newDocument (srv_documents server))
               in (sent,
                   emit (SendNotification serverId (DidChange fileUri newVersion content)) w1))))"

definition closeDocument ::
  "world \<Rightarrow> server_id \<Rightarrow> uri \<Rightarrow> error + unit \<Rightarrow> (error + unit) \<times> world" where
  "closeDocument w serverId fileUri sent =
    (case map_of (servers w) serverId of
       None \<Rightarrow> (Inl (SessionNotFound serverId), w)
     | Some server \<Rightarrow>
         (case map_of (srv_documents server) fileUri of
            None \<Rightarrow> (Inl (DocumentNotOpen fileUri), w)
          | Some document \<Rightarrow>
              (let w1 = set_documents w serverId
                          (AList.delete fileUri (srv_documents server))
               in (sent, emit (SendNotification serverId (DidClose fileUri)) w1))))"

text \<open>
  The state tracked for one URI of one session; \<open>None\<close> when the session is not
  registered or the URI is not open.
\<close>

definition document_of :: "world \<Rightarrow> server_id \<Rightarrow> uri \<Rightarrow> text_document option" where
  "document_of w serverId fileUri =
    (case map_of (servers w) serverId of
       None \<Rightarrow> None
     | Some server \<Rightarrow> map_of (srv_documents server) fileUri)"

text \<open>
  A caller that updates one document several times: the calls of
  \<^verbatim>\<open>updateDocument\<close> run one after the other, each with its new content and the way its
  notification settles. The results of the calls are collected.
\<close>

fun updateDocument_seq ::
  "world \<Rightarrow> server_id \<Rightarrow> uri \<Rightarrow> (string \<times> (error + unit)) list \<Rightarrow>
   (error + unit) list \<times> world" where
  "updateDocument_seq w serverId fileUri [] = ([], w)"
| "updateDocument_seq w serverId fileUri (u # us) =
    (case updateDocument w serverId fileUri (fst u) (snd u) of
       (r, w1) \<Rightarrow>
         (case updateDocument_seq w1 serverId fileUri us of (rs, w2) \<Rightarrow> (r # rs, w2)))"

subsection \<open>Auxiliary notions and an example state\<close>

text \<open>A session is stopped: its entry is gone and its process has been killed.\<close>

definition stopped :: "world \<Rightarrow> server_id \<Rightarrow> bool" where
  "stopped w serverId =
    (map_of (servers w) serverId = None \<and> Kill serverId \<in> set (effects w))"

definition empty_world :: world where
  "empty_world = \<lparr>servers = [], effects = [], unawaited = []\<rparr>"

text \<open>
  Two sessions: \<open>s1\<close> with one open document that has been updated twice, and \<open>s2\<close>
  with no document.
\<close>

definition example_world :: world where
  "example_world =
    \<lparr>servers =
       [(''s1'', \<lparr>srv_id = ''s1'', srv_language = ''typescript'',
                 srv_workspaceUri = ''file:///tmp/proj'',
                 srv_documents =
                   [(''file:///tmp/proj/a.ts'',
                     \<lparr>doc_uri = ''file:///tmp/proj/a.ts'', doc_languageId = ''typescript'',
                      doc_version = 3, doc_content = ''let x = 1;''\<rparr>)],
                 srv_initialized = True\<rparr>),
        (''s2'', \<lparr>srv_id = ''s2'', srv_language = ''python'',
                 srv_workspaceUri = ''file:///tmp/py'',
                 srv_documents = [], srv_initialized = True\<rparr>)],
     effects = [], unawaited = []\<rparr>"

section \<open>Properties\<close>

subsection \<open>Basic facts about the state\<close>

lemma emit_fields [simp]:
  "servers (emit e w) = servers w"
  "effects (emit e w) = effects w @ [e]"
  "unawaited (emit e w) = unawaited w"
  by (simp_all add: emit_def)

lemma teardown_fields [simp]:
  "servers (teardown w i) = AList.delete i (servers w)"
  "effects (teardown w i) = effects w @ [Dispose i, Kill i]"
  "unawaited (teardown w i) = unawaited w"
  by (simp_all add: teardown_def)

lemma map_of_delete_same [simp]: "map_of (AList.delete k al) k = None"
  by (simp add: AList.delete_conv')

lemma map_of_delete_None: "map_of al j = None \<Longrightarrow> map_of (AList.delete k al) j = None"
  by (simp add: AList.delete_conv')

lemma set_documents_fields [simp]:
  "effects (set_documents w i docs) = effects w"
  "unawaited (set_documents w i docs) = unawaited w"
  by (simp_all add: set_documents_def)

lemma map_of_set_documents [simp]:
  "map_of (servers (set_documents w i docs)) j =
    (if j = i then map_option (\<lambda>s. s\<lparr>srv_documents := docs\<rparr>) (map_of (servers w) i)
     else map_of (servers w) j)"
  by (simp add: set_documents_def map_of_map_entry split: option.splits)

lemma example_s1:
  "map_of (servers example_world) ''s1'' =
     Some \<lparr>srv_id = ''s1'', srv_language = ''typescript'',
            srv_workspaceUri = ''file:///tmp/proj'',
            srv_documents =
              [(''file:///tmp/proj/a.ts'',
                \<lparr>doc_uri = ''file:///tmp/proj/a.ts'', doc_languageId = ''typescript'',
                 doc_version = 3, doc_content = ''let x = 1;''\<rparr>)],
            srv_initialized = True\<rparr>"
  by (simp add: example_world_def)

lemma example_s2:
  "map_of (servers example_world) ''s2'' =
     Some \<lparr>srv_id = ''s2'', srv_language = ''python'', srv_workspaceUri = ''file:///tmp/py'',
            srv_documents = [], srv_initialized = True\<rparr>"
  by (simp add: example_world_def)

lemma example_effects: "effects example_world = []"
  by (simp add: example_world_def)

subsection \<open>Starting a session\<close>

text \<open>
  C3. A language that is none of typescript, python, rust, go, java and cpp, started
  with no custom command (absent, or the empty string, which the truthiness test treats
  alike), fails with \<open>UnsupportedLanguage\<close>. The state returned is the state given: no
  entry is added to the table and the trace holds no spawn.
\<close>

theorem startServer_unsupported_language:
  assumes "language \<notin> {''typescript'', ''python'', ''rust'', ''go'', ''java'', ''cpp''}"
    and "customCommand = None \<or> customCommand = Some []"
  shows "startServer w language workspaceUri customCommand customArgs serverId
           initializeReply initializedSent = (Inl (UnsupportedLanguage language), w)"
proof -
  from assms(1) have "map_of languageServerCommands language = None"
    by (simp add: languageServerCommands_def)
  with assms(2) have "resolveCommand language customCommand customArgs
      = Inl (UnsupportedLanguage language)"
    unfolding resolveCommand_def by auto
  then show ?thesis
    by (simp add: startServer_def)
qed

theorem startServer_unsupported_language_witness:
  "startServer example_world ''cobol'' ''file:///tmp/proj'' None None ''id-1''
       (Inr ''capabilities'') (Inr ())
     = (Inl (UnsupportedLanguage ''cobol''), example_world)"
proof -
  have unlisted: "''cobol'' \<notin> {''typescript'', ''python'', ''rust'', ''go'', ''java'', ''cpp''}"
    by simp
  have absent: "(None :: string option) = None \<or> (None :: string option) = Some []"
    by simp
  show ?thesis
    by (rule startServer_unsupported_language [OF unlisted absent])
qed

text \<open>
  C2, as the code behaves. When the handshake fails (the \<^verbatim>\<open>initialize\<close> request rejects,
  or the \<^verbatim>\<open>initialized\<close> notification does), \<^verbatim>\<open>startServer\<close> rethrows the cause, and
  in the state its caller then sees the session is still in the table, not initialized:
  the \<^verbatim>\<open>stopServer\<close> of the \<^verbatim>\<open>catch\<close> block is not awaited, so it has only sent its
  \<^verbatim>\<open>shutdown\<close> request and waits for the reply, and the process has not been killed.
  The entry goes only when that suspended call resumes, as the last line of the example
  shows.
\<close>

theorem failed_handshake_session_registered:
  assumes "resolveCommand language customCommand customArgs = Inr (command, args)"
    and "initializeReply = Inl err
         \<or> (initializeReply = Inr result \<and> initializedSent = Inl err)"
  shows "fst (startServer w language workspaceUri customCommand customArgs serverId
                initializeReply initializedSent) = Inl err
    \<and> map_of (servers (snd (startServer w language workspaceUri customCommand customArgs
                serverId initializeReply initializedSent))) serverId =
        Some \<lparr>srv_id = serverId, srv_language = language, srv_workspaceUri = workspaceUri,
               srv_documents = [], srv_initialized = False\<rparr>
    \<and> unawaited (snd (startServer w language workspaceUri customCommand customArgs
                serverId initializeReply initializedSent))
        = unawaited w @ [AwaitShutdown serverId]
    \<and> (Kill serverId \<in> set (effects (snd (startServer w language workspaceUri customCommand
                customArgs serverId initializeReply initializedSent))))
        = (Kill serverId \<in> set (effects w))"
proof -
  let ?info = "\<lparr>srv_id = serverId, srv_language = language, srv_workspaceUri = workspaceUri,
                 srv_documents = [], srv_initialized = False\<rparr>"
  have failed: "fst (handshakeFailed w1 serverId err) = Inl err
      \<and> map_of (servers (snd (handshakeFailed w1 serverId err))) serverId = Some ?info
      \<and> unawaited (snd (handshakeFailed w1 serverId err)) = unawaited w1 @ [AwaitShutdown serverId]
      \<and> (Kill serverId \<in> set (effects (snd (handshakeFailed w1 serverId err))))
          = (Kill serverId \<in> set (effects w1))"
    if "map_of (servers w1) serverId = Some ?info" for w1
    using that by (simp add: handshakeFailed_def stopServer_begin_def)
  from assms(2) show ?thesis
  proof
    assume "initializeReply = Inl err"
    then show ?thesis
      using assms(1) by (simp add: startServer_def Let_def failed AList.update_conv')
  next
    assume "initializeReply = Inr result \<and> initializedSent = Inl err"
    then show ?thesis
      using assms(1) by (simp add: startServer_def Let_def failed AList.update_conv')
  qed
qed

theorem failed_handshake_session_registered_witness:
  "fst (startServer empty_world ''typescript'' ''file:///tmp/proj'' None None ''id-1''
          (Inl (Failure ''initialize rejected'')) (Inr ())) = Inl (Failure ''initialize rejected'')
   \<and> map_of (servers (snd (startServer empty_world ''typescript'' ''file:///tmp/proj'' None None
          ''id-1'' (Inl (Failure ''initialize rejected'')) (Inr ())))) ''id-1''
       = Some \<lparr>srv_id = ''id-1'', srv_language = ''typescript'',
                srv_workspaceUri = ''file:///tmp/proj'', srv_documents = [],
                srv_initialized = False\<rparr>
   \<and> unawaited (snd (startServer empty_world ''typescript'' ''file:///tmp/proj'' None None
          ''id-1'' (Inl (Failure ''initialize rejected'')) (Inr ()))) = [AwaitShutdown ''id-1'']
   \<and> Kill ''id-1'' \<notin> set (effects (snd (startServer empty_world ''typescript''
          ''file:///tmp/proj'' None None ''id-1'' (Inl (Failure ''initialize rejected'')) (Inr ()))))
   \<and> getDiagnostics (snd (startServer empty_world ''typescript'' ''file:///tmp/proj'' None None
          ''id-1'' (Inl (Failure ''initialize rejected'')) (Inr ()))) ''id-1'' ''file:///tmp/proj/a.ts''
       = Inr []
   \<and> stopped (snd (stopServer_resume
          (snd (startServer empty_world ''typescript'' ''file:///tmp/proj'' None None
             ''id-1'' (Inl (Failure ''initialize rejected'')) (Inr ())))
          (AwaitShutdown ''id-1'') (Inl (Failure ''no reply'')))) ''id-1''"
proof -
  have cmd: "resolveCommand ''typescript'' None None
      = Inr (''typescript-language-server'', [''--stdio''])"
    by (simp add: resolveCommand_def languageServerCommands_def)
  have fails: "(Inl (Failure ''initialize rejected'') :: error + payload)
        = Inl (Failure ''initialize rejected'')
      \<or> ((Inl (Failure ''initialize rejected'') :: error + payload) = Inr []
          \<and> (Inr () :: error + unit) = Inl (Failure ''initialize rejected''))"
    by simp
  from failed_handshake_session_registered
    [OF cmd fails, of empty_world "''file:///tmp/proj''" "''id-1''"]
  show ?thesis
    by (simp add: empty_world_def getDiagnostics_def stopped_def)
qed

subsection \<open>Stopping sessions\<close>

text \<open>
  C6. \<^verbatim>\<open>stopServer\<close> on an identifier with no entry fails with \<open>SessionNotFound\<close> and
  returns the state it was given. On a registered session it returns normally however
  the \<^verbatim>\<open>shutdown\<close> request and the \<^verbatim>\<open>exit\<close> notification settle; the process has then
  been killed, the entry is gone, and a later lookup of the identifier (here by
  \<^verbatim>\<open>getDiagnostics\<close>) fails with \<open>SessionNotFound\<close>.
\<close>

theorem stopServer_removes_session:
  "(map_of (servers w) serverId = None \<longrightarrow>
      stopServer w serverId shutdownReply exitSent = (Inl (SessionNotFound serverId), w))
   \<and> (map_of (servers w) serverId \<noteq> None \<longrightarrow>
      fst (stopServer w serverId shutdownReply exitSent) = Inr ()
      \<and> map_of (servers (snd (stopServer w serverId shutdownReply exitSent))) serverId = None
      \<and> Kill serverId \<in> set (effects (snd (stopServer w serverId shutdownReply exitSent)))
      \<and> getDiagnostics (snd (stopServer w serverId shutdownReply exitSent)) serverId fileUri
          = Inl (SessionNotFound serverId))"
proof (intro conjI impI)
  assume "map_of (servers w) serverId = None"
  then show "stopServer w serverId shutdownReply exitSent = (Inl (SessionNotFound serverId), w)"
    by (simp add: stopServer_def stopServer_begin_def)
next
  assume live: "map_of (servers w) serverId \<noteq> None"
  then obtain server where s: "map_of (servers w) serverId = Some server" by blast
  let ?w' = "snd (stopServer w serverId shutdownReply exitSent)"
  show "fst (stopServer w serverId shutdownReply exitSent) = Inr ()"
    using s by (cases shutdownReply) (simp_all add: stopServer_def stopServer_begin_def)
  show gone: "map_of (servers ?w') serverId = None"
    using s by (cases shutdownReply; cases exitSent)
      (simp_all add: stopServer_def stopServer_begin_def)
  show "Kill serverId \<in> set (effects ?w')"
    using s by (cases shutdownReply; cases exitSent)
      (simp_all add: stopServer_def stopServer_begin_def)
  show "getDiagnostics ?w' serverId fileUri = Inl (SessionNotFound serverId)"
    using gone by (simp add: getDiagnostics_def)
qed

theorem stopServer_removes_session_witness:
  "stopServer example_world ''ghost'' (Inr ()) (Inr ())
     = (Inl (SessionNotFound ''ghost''), example_world)
   \<and> fst (stopServer example_world ''s1'' (Inl (Failure ''timeout'')) (Inr ())) = Inr ()
   \<and> map_of (servers (snd (stopServer example_world ''s1'' (Inl (Failure ''timeout'')) (Inr ()))))
        ''s1'' = None
   \<and> Kill ''s1''
        \<in> set (effects (snd (stopServer example_world ''s1'' (Inl (Failure ''timeout'')) (Inr ()))))"
proof -
  have unknown: "map_of (servers example_world) ''ghost'' = None"
    by (simp add: example_world_def)
  have known: "map_of (servers example_world) ''s1'' \<noteq> None"
    by (simp add: example_s1)
  from unknown known show ?thesis
    using stopServer_removes_session [of example_world "''ghost''" "Inr ()" "Inr ()"]
      stopServer_removes_session [of example_world "''s1''" "Inl (Failure ''timeout'')" "Inr ()"]
    by blast
qed

text \<open>
  One step of a suspended \<^verbatim>\<open>stopServer\<close>: the trace only grows, no entry comes back,
  and the call either waits on for the same session or has stopped it.
\<close>

lemma stopServer_resume_step:
  assumes "stopServer_resume w task reply = (next_task, w')"
  shows "set (effects w) \<subseteq> set (effects w')"
    and "map_of (servers w) j = None \<Longrightarrow> map_of (servers w') j = None"
    and "next_task = Some task' \<Longrightarrow> task_id task' = task_id task"
    and "next_task = None \<Longrightarrow> stopped w' (task_id task)"
  using assms
  by (cases task; cases reply; auto simp: stopped_def map_of_delete_None)+

lemma stopped_step:
  assumes "stopServer_resume w task reply = (next_task, w')" and "stopped w j"
  shows "stopped w' j"
  using stopServer_resume_step(1,2) [OF assms(1)] assms(2)
  by (auto simp: stopped_def)

text \<open>
  The invariant of the sweep: a session is either still waited for by a suspended call
  or already stopped.
\<close>

lemma settle_invariant:
  assumes "settle w tasks ev = (tasks', w')"
    and "j \<in> task_id ` set tasks \<or> stopped w j"
  shows "j \<in> task_id ` set tasks' \<or> stopped w' j"
  using assms
proof (induction tasks arbitrary: tasks' w')
  case Nil
  then show ?case by simp
next
  case (Cons task tasks)
  show ?case
  proof (cases "task_id task = fst ev")
    case True
    obtain nt w1 where r: "stopServer_resume w task (snd ev) = (nt, w1)"
      by (cases "stopServer_resume w task (snd ev)")
    show ?thesis
    proof (cases nt)
      case None
      with r True Cons.prems(1) have eq: "tasks' = tasks" "w' = w1" by simp_all
      from Cons.prems(2) consider "j = task_id task" | "j \<in> task_id ` set tasks" | "stopped w j"
        by auto
      then show ?thesis
      proof cases
        case 1
        then show ?thesis using stopServer_resume_step(4) [OF r None] eq by simp
      next
        case 2
        then show ?thesis using eq by simp
      next
        case 3
        then show ?thesis using stopped_step [OF r 3] eq by simp
      qed
    next
      case (Some t')
      with r True Cons.prems(1) have eq: "tasks' = t' # tasks" "w' = w1" by simp_all
      have same: "task_id t' = task_id task"
        using stopServer_resume_step(3) [OF r Some] .
      from Cons.prems(2) consider "j \<in> task_id ` set (task # tasks)" | "stopped w j"
        by auto
      then show ?thesis
      proof cases
        case 1
        then show ?thesis using eq same by auto
      next
        case 2
        then show ?thesis using stopped_step [OF r 2] eq by simp
      qed
    qed
  next
    case False
    obtain ts1 w1 where r: "settle w tasks ev = (ts1, w1)"
      by (cases "settle w tasks ev")
    with False Cons.prems(1) have eq: "tasks' = task # ts1" "w' = w1" by simp_all
    show ?thesis
    proof (cases "j = task_id task")
      case True
      then show ?thesis using eq by simp
    next
      case False
      with Cons.prems(2) have "j \<in> task_id ` set tasks \<or> stopped w j" by auto
      from Cons.IH [OF r this] show ?thesis using eq by auto
    qed
  qed
qed

lemma settle_effects_mono:
  "settle w tasks ev = (tasks', w') \<Longrightarrow> set (effects w) \<subseteq> set (effects w')"
proof (induction tasks arbitrary: tasks')
  case Nil
  then show ?case by simp
next
  case (Cons task tasks)
  then show ?case
    by (auto split: if_splits prod.splits option.splits dest: stopServer_resume_step(1))
qed

lemma settle_all_invariant:
  assumes "settle_all w tasks evs = (tasks', w')"
    and "j \<in> task_id ` set tasks \<or> stopped w j"
  shows "j \<in> task_id ` set tasks' \<or> stopped w' j"
  using assms
proof (induction evs arbitrary: w tasks)
  case Nil
  then show ?case by simp
next
  case (Cons ev evs)
  obtain ts1 w1 where r: "settle w tasks ev = (ts1, w1)"
    by (cases "settle w tasks ev")
  with Cons.prems(1) have "settle_all w1 ts1 evs = (tasks', w')" by simp
  from Cons.IH [OF this settle_invariant [OF r Cons.prems(2)]] show ?case .
qed

lemma settle_all_effects_mono:
  "settle_all w tasks evs = (tasks', w') \<Longrightarrow> set (effects w) \<subseteq> set (effects w')"
proof (induction evs arbitrary: w tasks)
  case Nil
  then show ?case by simp
next
  case (Cons ev evs)
  obtain ts1 w1 where r: "settle w tasks ev = (ts1, w1)"
    by (cases "settle w tasks ev")
  with Cons.prems have "settle_all w1 ts1 evs = (tasks', w')" by simp
  from Cons.IH [OF this] settle_effects_mono [OF r] show ?case by blast
qed

lemma stopAll_begin_effects_mono:
  "stopAll_begin w ids = (tasks, w') \<Longrightarrow> set (effects w) \<subseteq> set (effects w')"
proof (induction ids arbitrary: w tasks)
  case Nil
  then show ?case by simp
next
  case (Cons a ids)
  then show ?case
    by (fastforce simp: stopServer_begin_def split: option.splits prod.splits)
qed

lemma stopAll_begin_tasks:
  assumes "stopAll_begin w ids = (tasks, w')"
    and "i \<in> set ids" and "map_of (servers w) i \<noteq> None"
  shows "i \<in> task_id ` set tasks \<and> SendRequest i Shutdown \<in> set (effects w')"
  using assms
proof (induction ids arbitrary: w tasks)
  case Nil
  then show ?case by simp
next
  case (Cons a ids)
  show ?case
  proof (cases "map_of (servers w) a")
    case None
    with Cons.prems have ne: "i \<noteq> a" by auto
    from None Cons.prems(1)
    have "stopAll_begin (emit (ConsoleError ''Error stopping server'') w) ids = (tasks, w')"
      by (simp add: stopServer_begin_def)
    from Cons.IH [OF this] ne Cons.prems(2,3) show ?thesis by simp
  next
    case (Some server)
    obtain ts1 where r: "stopAll_begin (emit (SendRequest a Shutdown) w) ids = (ts1, w')"
      and eq: "tasks = AwaitShutdown a # ts1"
      using Some Cons.prems(1)
      by (auto simp: stopServer_begin_def split: prod.splits)
    show ?thesis
    proof (cases "i = a")
      case True
      then show ?thesis
        using eq stopAll_begin_effects_mono [OF r] by auto
    next
      case False
      with Cons.IH [OF r] Cons.prems(2,3) show ?thesis using eq by simp
    qed
  qed
qed

lemma stopAll_begin_live:
  "\<forall>i \<in> set ids. map_of (servers w) i \<noteq> None \<Longrightarrow>
   \<exists>w'. stopAll_begin w ids = (map AwaitShutdown ids, w')"
proof (induction ids arbitrary: w)
  case Nil
  then show ?case by simp
next
  case (Cons a ids)
  from Cons.prems obtain server where a: "map_of (servers w) a = Some server" by auto
  from Cons.prems have "\<forall>i \<in> set ids. map_of (servers (emit (SendRequest a Shutdown) w)) i \<noteq> None"
    by simp
  from Cons.IH [OF this] obtain w' where
    "stopAll_begin (emit (SendRequest a Shutdown) w) ids = (map AwaitShutdown ids, w')" ..
  with a show ?case by (simp add: stopServer_begin_def)
qed

lemma stopAll_begin_keys:
  "\<exists>w1. stopAll_begin w (map fst (servers w)) = (map AwaitShutdown (map fst (servers w)), w1)"
proof -
  have "\<forall>i \<in> set (map fst (servers w)). map_of (servers w) i \<noteq> None"
    by (simp add: map_of_eq_None_iff)
  from stopAll_begin_live [OF this] show ?thesis .
qed

text \<open>
  A reply resumes one suspended call: the sessions waited for stay the same, or the
  session of the reply is waited for once less. No reply takes back a stop.
\<close>

lemma settle_ids:
  assumes "settle w tasks ev = (tasks', w')"
  shows "map task_id tasks' = map task_id tasks
       \<or> map task_id tasks' = remove1 (fst ev) (map task_id tasks)"
  using assms
proof (induction tasks arbitrary: tasks' w')
  case Nil
  then show ?case by simp
next
  case (Cons task tasks)
  show ?case
  proof (cases "task_id task = fst ev")
    case True
    obtain nt w1 where r: "stopServer_resume w task (snd ev) = (nt, w1)"
      by (cases "stopServer_resume w task (snd ev)")
    show ?thesis
    proof (cases nt)
      case None
      with r True Cons.prems show ?thesis by auto
    next
      case (Some t')
      with r True Cons.prems stopServer_resume_step(3) [OF r Some] show ?thesis by auto
    qed
  next
    case False
    obtain ts1 w1 where r: "settle w tasks ev = (ts1, w1)"
      by (cases "settle w tasks ev")
    with False Cons.prems have eq: "tasks' = task # ts1" by simp
    from Cons.IH [OF r] False eq show ?thesis by auto
  qed
qed

lemma settle_ids_subset:
  "settle w tasks ev = (tasks', w') \<Longrightarrow> set (map task_id tasks') \<subseteq> set (map task_id tasks)"
  using settle_ids [of w tasks ev tasks' w']
  by (metis order_refl set_remove1_subset)

lemma settle_ids_distinct:
  "settle w tasks ev = (tasks', w') \<Longrightarrow> distinct (map task_id tasks) \<Longrightarrow>
   distinct (map task_id tasks')"
  using settle_ids [of w tasks ev tasks' w'] by (auto simp: distinct_remove1)

lemma settle_stopped:
  "settle w tasks ev = (tasks', w') \<Longrightarrow> stopped w j \<Longrightarrow> stopped w' j"
proof (induction tasks arbitrary: tasks')
  case Nil
  then show ?case by simp
next
  case (Cons task tasks)
  then show ?case
    by (auto split: if_splits prod.splits option.splits dest: stopped_step)
qed

lemma settle_all_ids_subset:
  "settle_all w tasks evs = (rest, w') \<Longrightarrow> set (map task_id rest) \<subseteq> set (map task_id tasks)"
proof (induction evs arbitrary: w tasks)
  case Nil
  then show ?case by simp
next
  case (Cons ev evs)
  obtain ts1 w1 where r: "settle w tasks ev = (ts1, w1)"
    by (cases "settle w tasks ev")
  with Cons.prems have "settle_all w1 ts1 evs = (rest, w')" by simp
  from Cons.IH [OF this] settle_ids_subset [OF r] show ?case by blast
qed

lemma settle_all_stopped:
  "settle_all w tasks evs = (rest, w') \<Longrightarrow> stopped w j \<Longrightarrow> stopped w' j"
proof (induction evs arbitrary: w tasks)
  case Nil
  then show ?case by simp
next
  case (Cons ev evs)
  obtain ts1 w1 where r: "settle w tasks ev = (ts1, w1)"
    by (cases "settle w tasks ev")
  with Cons.prems(1) have "settle_all w1 ts1 evs = (rest, w')" by simp
  from Cons.IH [OF this settle_stopped [OF r Cons.prems(2)]] show ?case .
qed

text \<open>A reply for another session leaves the call that waits for this one as it is.\<close>

lemma settle_other:
  assumes "settle w tasks ev = (tasks', w')" and "fst ev \<noteq> i"
  shows "find (\<lambda>t. task_id t = i) tasks' = find (\<lambda>t. task_id t = i) tasks"
  using assms
proof (induction tasks arbitrary: tasks' w')
  case Nil
  then show ?case by simp
next
  case (Cons task tasks)
  show ?case
  proof (cases "task_id task = fst ev")
    case True
    obtain nt w1 where r: "stopServer_resume w task (snd ev) = (nt, w1)"
      by (cases "stopServer_resume w task (snd ev)")
    show ?thesis
    proof (cases nt)
      case None
      with r True Cons.prems show ?thesis by auto
    next
      case (Some t')
      with r True Cons.prems stopServer_resume_step(3) [OF r Some] show ?thesis by auto
    qed
  next
    case False
    obtain ts1 w1 where r: "settle w tasks ev = (ts1, w1)"
      by (cases "settle w tasks ev")
    with False Cons.prems have eq: "tasks' = task # ts1" by simp
    from Cons.IH [OF r Cons.prems(2)] eq show ?thesis by simp
  qed
qed

text \<open>A reply for this session resumes the first call that waits for it.\<close>

lemma settle_own:
  assumes "settle w tasks ev = (tasks', w')"
    and "find (\<lambda>t. task_id t = fst ev) tasks = Some t"
  shows "\<exists>nt. stopServer_resume w t (snd ev) = (nt, w')
    \<and> (case nt of
          None \<Rightarrow> map task_id tasks' = remove1 (fst ev) (map task_id tasks)
        | Some t' \<Rightarrow> find (\<lambda>t. task_id t = fst ev) tasks' = Some t')"
  using assms
proof (induction tasks arbitrary: tasks' w')
  case Nil
  then show ?case by simp
next
  case (Cons task tasks)
  show ?case
  proof (cases "task_id task = fst ev")
    case True
    with Cons.prems(2) have t: "t = task" by simp
    obtain nt w1 where r: "stopServer_resume w task (snd ev) = (nt, w1)"
      by (cases "stopServer_resume w task (snd ev)")
    show ?thesis
    proof (cases nt)
      case None
      with r True Cons.prems(1) t show ?thesis by auto
    next
      case (Some t')
      with r True Cons.prems(1) t stopServer_resume_step(3) [OF r Some] show ?thesis by auto
    qed
  next
    case False
    obtain ts1 w1 where r: "settle w tasks ev = (ts1, w1)"
      by (cases "settle w tasks ev")
    with False Cons.prems(1) have eq: "tasks' = task # ts1" "w' = w1" by simp_all
    from False Cons.prems(2) have "find (\<lambda>t. task_id t = fst ev) tasks = Some t" by simp
    from Cons.IH [OF r this] False eq show ?thesis
      by (auto split: option.splits)
  qed
qed

text \<open>
  A session whose own replies are enough is stopped, whatever replies the other sessions
  give or fail to give; and when no two suspended calls are for one session, nobody
  waits for it any more.
\<close>

lemma settle_all_completes:
  assumes "settle_all w tasks replies = (rest, w')"
    and "find (\<lambda>t. task_id t = i) tasks = Some t"
    and "completes t (own_replies i replies)"
  shows "stopped w' i \<and> (distinct (map task_id tasks) \<longrightarrow> i \<notin> set (map task_id rest))"
  using assms
proof (induction replies arbitrary: w tasks t)
  case Nil
  then show ?case by (cases t) (simp_all add: own_replies_def)
next
  case (Cons ev evs)
  obtain ts1 w1 where r: "settle w tasks ev = (ts1, w1)"
    by (cases "settle w tasks ev")
  with Cons.prems(1) have rest: "settle_all w1 ts1 evs = (rest, w')" by simp
  from Cons.prems(2) have id: "task_id t = i"
    by (auto simp: find_Some_iff)
  show ?case
  proof (cases "fst ev = i")
    case False
    then have "own_replies i (ev # evs) = own_replies i evs"
      by (simp add: own_replies_def)
    with Cons.prems(3) have c: "completes t (own_replies i evs)" by simp
    from settle_other [OF r False] Cons.prems(2)
    have f: "find (\<lambda>t. task_id t = i) ts1 = Some t" by simp
    from Cons.IH [OF rest f c] settle_ids_distinct [OF r] show ?thesis by blast
  next
    case True
    then have own: "own_replies i (ev # evs) = snd ev # own_replies i evs"
      by (simp add: own_replies_def)
    from Cons.prems(2) True have "find (\<lambda>t. task_id t = fst ev) tasks = Some t" by simp
    from settle_own [OF r this] obtain nt where
      step: "stopServer_resume w t (snd ev) = (nt, w1)"
      and shape: "case nt of
          None \<Rightarrow> map task_id ts1 = remove1 (fst ev) (map task_id tasks)
        | Some t' \<Rightarrow> find (\<lambda>t. task_id t = fst ev) ts1 = Some t'"
      by blast
    show ?thesis
    proof (cases nt)
      case None
      from stopServer_resume_step(4) [OF step None] id have "stopped w1 i" by simp
      then have s: "stopped w' i" by (rule settle_all_stopped [OF rest])
      have "i \<notin> set (map task_id rest)" if d: "distinct (map task_id tasks)"
      proof -
        from shape None True have "map task_id ts1 = remove1 i (map task_id tasks)" by simp
        with d have "i \<notin> set (map task_id ts1)" by simp
        with settle_all_ids_subset [OF rest] show ?thesis by blast
      qed
      with s show ?thesis by blast
    next
      case (Some t')
      with shape True have f: "find (\<lambda>t. task_id t = i) ts1 = Some t'" by simp
      from step Some Cons.prems(3) own have c: "completes t' (own_replies i evs)"
        by (cases t; cases "snd ev") auto
      from Cons.IH [OF rest f c] settle_ids_distinct [OF r] show ?thesis by blast
    qed
  qed
qed

text \<open>
  C7. The theorem is about the sweep at any moment, so it holds whether or not
  \<^verbatim>\<open>stopAllServers\<close> has returned and whatever the replies were (fulfilled, rejected,
  or none at all from some session), in whatever order they came.

  \<^item> Every session that was in the table at the call has had its \<^verbatim>\<open>shutdown\<close> request
    sent, and is either still waited for or stopped (process killed, entry gone).
  \<^item> A session whose own replies are enough for its \<^verbatim>\<open>stopServer\<close> to run to its end
    is stopped, whether the other sessions answer, fail or stay silent.
  \<^item> When \<^verbatim>\<open>stopAllServers\<close> returns it returns normally, and every session of the
    initial table has been sent its \<^verbatim>\<open>shutdown\<close>, killed and removed.
  \<^item> It does return, with that state, as soon as every session's own replies are enough
    (the keys of a \<^verbatim>\<open>Map\<close> are distinct).
\<close>

theorem stopAllServers_sweeps:
  "(\<forall>i \<in> set (map fst (servers w)).
        SendRequest i Shutdown \<in> set (effects (snd (stopAll_progress w replies)))
      \<and> (i \<in> task_id ` set (fst (stopAll_progress w replies))
           \<or> stopped (snd (stopAll_progress w replies)) i)
      \<and> (completes (AwaitShutdown i) (own_replies i replies)
           \<longrightarrow> stopped (snd (stopAll_progress w replies)) i))
   \<and> (\<forall>r w'. stopAllServers w replies = Some (r, w') \<longrightarrow>
          r = Inr ()
        \<and> (\<forall>i \<in> set (map fst (servers w)).
              map_of (servers w') i = None
            \<and> SendRequest i Shutdown \<in> set (effects w')
            \<and> Kill i \<in> set (effects w')))
   \<and> (distinct (map fst (servers w))
        \<and> (\<forall>i \<in> set (map fst (servers w)). completes (AwaitShutdown i) (own_replies i replies))
       \<longrightarrow> stopAllServers w replies = Some (Inr (), snd (stopAll_progress w replies)))"
proof -
  let ?keys = "map fst (servers w)"
  from stopAll_begin_keys obtain w1 where
    b: "stopAll_begin w ?keys = (map AwaitShutdown ?keys, w1)" ..
  obtain rest w2 where s: "settle_all w1 (map AwaitShutdown ?keys) replies = (rest, w2)"
    by (cases "settle_all w1 (map AwaitShutdown ?keys) replies")
  from b s have p: "stopAll_progress w replies = (rest, w2)"
    by (simp add: stopAll_progress_def)
  have "map task_id (map AwaitShutdown ks) = ks" for ks
    by (induction ks) simp_all
  then have ids: "map task_id (map AwaitShutdown ?keys) = ?keys" .
  have first: "find (\<lambda>t. task_id t = i) (map AwaitShutdown ks) = Some (AwaitShutdown i)"
    if "i \<in> set ks" for i ks
    using that by (induction ks) auto
  have sent: "SendRequest i Shutdown \<in> set (effects w2)"
    and waits: "i \<in> task_id ` set rest \<or> stopped w2 i"
    if i: "i \<in> set ?keys" for i
  proof -
    from i have live: "map_of (servers w) i \<noteq> None"
      by (simp add: map_of_eq_None_iff)
    from stopAll_begin_tasks [OF b i live]
    have t: "i \<in> task_id ` set (map AwaitShutdown ?keys)"
      and e: "SendRequest i Shutdown \<in> set (effects w1)"
      by simp_all
    from e settle_all_effects_mono [OF s] show "SendRequest i Shutdown \<in> set (effects w2)"
      by blast
    from settle_all_invariant [OF s] t show "i \<in> task_id ` set rest \<or> stopped w2 i"
      by blast
  qed
  have own: "stopped w2 i \<and> (distinct ?keys \<longrightarrow> i \<notin> set (map task_id rest))"
    if i: "i \<in> set ?keys" and c: "completes (AwaitShutdown i) (own_replies i replies)" for i
    using settle_all_completes [OF s first [OF i] c] unfolding ids .
  have part1: "\<forall>i \<in> set ?keys.
        SendRequest i Shutdown \<in> set (effects (snd (stopAll_progress w replies)))
      \<and> (i \<in> task_id ` set (fst (stopAll_progress w replies))
           \<or> stopped (snd (stopAll_progress w replies)) i)
      \<and> (completes (AwaitShutdown i) (own_replies i replies)
           \<longrightarrow> stopped (snd (stopAll_progress w replies)) i)"
    using sent waits own by (simp add: p)
  have part2: "\<forall>r w'. stopAllServers w replies = Some (r, w') \<longrightarrow>
          r = Inr ()
        \<and> (\<forall>i \<in> set ?keys.
              map_of (servers w') i = None
            \<and> SendRequest i Shutdown \<in> set (effects w')
            \<and> Kill i \<in> set (effects w'))"
  proof (intro allI impI)
    fix r w'
    assume "stopAllServers w replies = Some (r, w')"
    with p have fin: "rest = []" and r: "r = Inr ()" and w': "w' = w2"
      by (auto simp: stopAllServers_def split: if_splits)
    from waits fin have "\<forall>i \<in> set ?keys. stopped w2 i" by simp
    with sent r w' show "r = Inr ()
        \<and> (\<forall>i \<in> set ?keys.
              map_of (servers w') i = None
            \<and> SendRequest i Shutdown \<in> set (effects w')
            \<and> Kill i \<in> set (effects w'))"
      by (simp add: stopped_def)
  qed
  have part3: "distinct ?keys
        \<and> (\<forall>i \<in> set ?keys. completes (AwaitShutdown i) (own_replies i replies))
       \<longrightarrow> stopAllServers w replies = Some (Inr (), snd (stopAll_progress w replies))"
  proof
    assume h: "distinct ?keys
        \<and> (\<forall>i \<in> set ?keys. completes (AwaitShutdown i) (own_replies i replies))"
    with own have gone: "\<forall>i \<in> set ?keys. i \<notin> set (map task_id rest)" by blast
    from settle_all_ids_subset [OF s] have sub: "set (map task_id rest) \<subseteq> set ?keys"
      unfolding ids .
    have "rest = []"
    proof (cases rest)
      case Nil
      then show ?thesis .
    next
      case (Cons t ts)
      then have here: "task_id t \<in> set (map task_id rest)" by simp
      with sub have "task_id t \<in> set ?keys" by blast
      with gone have "task_id t \<notin> set (map task_id rest)" by blast
      with here show ?thesis by contradiction
    qed
    with p show "stopAllServers w replies = Some (Inr (), snd (stopAll_progress w replies))"
      by (simp add: stopAllServers_def)
  qed
  from part1 part2 part3 show ?thesis by blast
qed

text \<open>
  Two runs on the example. In the first only \<open>s2\<close> answers, with a rejection: \<open>s2\<close> is
  stopped, \<open>s1\<close> has been sent its \<^verbatim>\<open>shutdown\<close>, and \<^verbatim>\<open>stopAllServers\<close> has not
  returned. In the second \<open>s1\<close> answers too, after the failure of \<open>s2\<close>: the sweep
  returns normally with both sessions stopped.
\<close>

theorem stopAllServers_sweeps_witness:
  "SendRequest ''s1'' Shutdown
     \<in> set (effects (snd (stopAll_progress example_world
               [(''s2'', Inl (Failure ''shutdown rejected''))])))
   \<and> stopped (snd (stopAll_progress example_world
               [(''s2'', Inl (Failure ''shutdown rejected''))])) ''s2''
   \<and> stopAllServers example_world [(''s2'', Inl (Failure ''shutdown rejected''))] = None
   \<and> stopAllServers example_world
        [(''s2'', Inl (Failure ''shutdown rejected'')), (''s1'', Inr ()), (''s1'', Inr ())]
       = Some (Inr (),
           \<lparr>servers = [],
            effects = [SendRequest ''s1'' Shutdown, SendRequest ''s2'' Shutdown,
                       ConsoleError ''Error during server shutdown:'', Dispose ''s2'', Kill ''s2'',
                       SendNotification ''s1'' Exit, Dispose ''s1'', Kill ''s1''],
            unawaited = []\<rparr>)
   \<and> stopped (snd (stopAll_progress example_world
        [(''s2'', Inl (Failure ''shutdown rejected'')), (''s1'', Inr ()), (''s1'', Inr ())])) ''s1''"
proof -
  let ?one = "[(''s2'', Inl (Failure ''shutdown rejected''))]"
  let ?all = "[(''s2'', Inl (Failure ''shutdown rejected'')), (''s1'', Inr ()), (''s1'', Inr ())]"
  have keys: "map fst (servers example_world) = [''s1'', ''s2'']"
    by (simp add: example_world_def)
  have d: "distinct (map fst (servers example_world))"
    by (simp add: keys)
  have c2: "completes (AwaitShutdown ''s2'') (own_replies ''s2'' ?one)"
    by (simp add: own_replies_def)
  have call: "\<forall>i \<in> set (map fst (servers example_world)).
      completes (AwaitShutdown i) (own_replies i ?all)"
    by (simp add: keys own_replies_def)
  have hangs: "stopAllServers example_world ?one = None"
    by (simp add: stopAllServers_def stopAll_progress_def example_world_def
        stopServer_begin_def emit_def teardown_def)
  have final: "snd (stopAll_progress example_world ?all)
      = \<lparr>servers = [],
         effects = [SendRequest ''s1'' Shutdown, SendRequest ''s2'' Shutdown,
                    ConsoleError ''Error during server shutdown:'', Dispose ''s2'', Kill ''s2'',
                    SendNotification ''s1'' Exit, Dispose ''s1'', Kill ''s1''],
         unawaited = []\<rparr>"
    by (simp add: stopAll_progress_def example_world_def stopServer_begin_def emit_def
        teardown_def)
  from stopAllServers_sweeps [of example_world ?one] keys c2
  have one: "SendRequest ''s1'' Shutdown \<in> set (effects (snd (stopAll_progress example_world ?one)))"
    "stopped (snd (stopAll_progress example_world ?one)) ''s2''"
    by simp_all
  from stopAllServers_sweeps [of example_world ?all] d call keys
  have all: "stopAllServers example_world ?all
      = Some (Inr (), snd (stopAll_progress example_world ?all))"
    "stopped (snd (stopAll_progress example_world ?all)) ''s1''"
    by (simp_all add: own_replies_def)
  from one hangs all final show ?thesis by simp
qed

subsection \<open>Queries\<close>

text \<open>
  C1, as the code behaves. A diagnostics notification pushed by the subprocess changes
  nothing, and \<^verbatim>\<open>getDiagnostics\<close> on a live session returns the empty array whatever
  was pushed for the document: no cache of pushed diagnostics exists.
\<close>

theorem getDiagnostics_drops_pushed:
  assumes "map_of (servers w) serverId = Some server"
  shows "getDiagnostics (onNotification w serverId (PublishDiagnostics fileUri ds))
           serverId fileUri = Inr []"
  using assms by (simp add: getDiagnostics_def onNotification_def)

theorem getDiagnostics_drops_pushed_witness:
  "getDiagnostics
     (onNotification example_world ''s1''
        (PublishDiagnostics ''file:///tmp/proj/a.ts'' [''TS2322: type mismatch'']))
     ''s1'' ''file:///tmp/proj/a.ts'' = Inr []
   \<and> (Inr [] :: error + diagnostic list) \<noteq> Inr [''TS2322: type mismatch'']"
  using getDiagnostics_drops_pushed [OF example_s1] by simp

text \<open>
  C8. On a live session, each of the seven request methods whose request fails returns
  \<^verbatim>\<open>null\<close> and throws nothing. The state it leaves differs from the one it found only
  in the trace (the request that was sent, and the logged error): the table, and with it
  the session's entry and its documents, is untouched.
\<close>

theorem failed_query_returns_null:
  assumes "map_of (servers w) serverId = Some server"
  shows "getCompletions w serverId fileUri line character (Inl err)
           = (Inr None, w\<lparr>effects := effects w @
                [SendRequest serverId (Completion fileUri line character),
                 ConsoleError ''Error getting completions:'']\<rparr>)
    \<and> getHover w serverId fileUri line character (Inl err)
           = (Inr None, w\<lparr>effects := effects w @
                [SendRequest serverId (Hover fileUri line character),
                 ConsoleError ''Error getting hover:'']\<rparr>)
    \<and> goToDefinition w serverId fileUri line character (Inl err)
           = (Inr None, w\<lparr>effects := effects w @
                [SendRequest serverId (Definition fileUri line character),
                 ConsoleError ''Error going to definition:'']\<rparr>)
    \<and> findReferences w serverId fileUri line character includeDeclaration (Inl err)
           = (Inr None, w\<lparr>effects := effects w @
                [SendRequest serverId (References fileUri line character includeDeclaration),
                 ConsoleError ''Error finding references:'']\<rparr>)
    \<and> renameSymbol w serverId fileUri line character newName (Inl err)
           = (Inr None, w\<lparr>effects := effects w @
                [SendRequest serverId (Rename fileUri line character newName),
                 ConsoleError ''Error renaming symbol:'']\<rparr>)
    \<and> formatDocument w serverId fileUri (Inl err)
           = (Inr None, w\<lparr>effects := effects w @
                [SendRequest serverId (Formatting fileUri 2 True),
                 ConsoleError ''Error formatting document:'']\<rparr>)
    \<and> getDocumentSymbols w serverId fileUri (Inl err)
           = (Inr None, w\<lparr>effects := effects w @
                [SendRequest serverId (DocumentSymbol fileUri),
                 ConsoleError ''Error getting document symbols:'']\<rparr>)"
proof (intro conjI)
  show "getCompletions w serverId fileUri line character (Inl err)
           = (Inr None, w\<lparr>effects := effects w @
                [SendRequest serverId (Completion fileUri line character),
                 ConsoleError ''Error getting completions:'']\<rparr>)"
    using assms by (simp add: getCompletions_def emit_def)
  show "getHover w serverId fileUri line character (Inl err)
           = (Inr None, w\<lparr>effects := effects w @
                [SendRequest serverId (Hover fileUri line character),
                 ConsoleError ''Error getting hover:'']\<rparr>)"
    using assms by (simp add: getHover_def emit_def)
  show "goToDefinition w serverId fileUri line character (Inl err)
           = (Inr None, w\<lparr>effects := effects w @
                [SendRequest serverId (Definition fileUri line character),
                 ConsoleError ''Error going to definition:'']\<rparr>)"
    using assms by (simp add: goToDefinition_def emit_def)
  show "findReferences w serverId fileUri line character includeDeclaration (Inl err)
           = (Inr None, w\<lparr>effects := effects w @
                [SendRequest serverId (References fileUri line character includeDeclaration),
                 ConsoleError ''Error finding references:'']\<rparr>)"
    using assms by (simp add: findReferences_def emit_def)
  show "renameSymbol w serverId fileUri line character newName (Inl err)
           = (Inr None, w\<lparr>effects := effects w @
                [SendRequest serverId (Rename fileUri line character newName),
                 ConsoleError ''Error renaming symbol:'']\<rparr>)"
    using assms by (simp add: renameSymbol_def emit_def)
  show "formatDocument w serverId fileUri (Inl err)
           = (Inr None, w\<lparr>effects := effects w @
                [SendRequest serverId (Formatting fileUri 2 True),
                 ConsoleError ''Error formatting document:'']\<rparr>)"
    using assms by (simp add: formatDocument_def emit_def)
  show "getDocumentSymbols w serverId fileUri (Inl err)
           = (Inr None, w\<lparr>effects := effects w @
                [SendRequest serverId (DocumentSymbol fileUri),
                 ConsoleError ''Error getting document symbols:'']\<rparr>)"
    using assms by (simp add: getDocumentSymbols_def emit_def)
qed

theorem failed_query_returns_null_witness:
  "getHover example_world ''s1'' ''file:///tmp/proj/a.ts'' 0 4 (Inl (Failure ''timeout''))
     = (Inr None,
        example_world\<lparr>effects :=
          [SendRequest ''s1'' (Hover ''file:///tmp/proj/a.ts'' 0 4),
           ConsoleError ''Error getting hover:'']\<rparr>)
   \<and> getDocumentSymbols example_world ''s1'' ''file:///tmp/proj/a.ts'' (Inl (Failure ''timeout''))
     = (Inr None,
        example_world\<lparr>effects :=
          [SendRequest ''s1'' (DocumentSymbol ''file:///tmp/proj/a.ts''),
           ConsoleError ''Error getting document symbols:'']\<rparr>)"
  using failed_query_returns_null [OF example_s1, of "''file:///tmp/proj/a.ts''" 0 4
      "Failure ''timeout''"]
  by (simp add: example_effects)

text \<open>
  C10. On a live session, each of the seven request methods hands its request to the
  connection as the first thing it does after the lookup, whatever documents the
  session tracks (so also for a URI that was never opened, or was closed), and whatever
  the reply its result is never \<open>DocumentNotOpen\<close>.
\<close>

theorem query_sent_without_open_check:
  assumes "map_of (servers w) serverId = Some server"
  shows "(\<exists>rest. effects (snd (getCompletions w serverId fileUri line character reply))
            = effects w @ SendRequest serverId (Completion fileUri line character) # rest)
    \<and> (\<exists>rest. effects (snd (getHover w serverId fileUri line character reply))
            = effects w @ SendRequest serverId (Hover fileUri line character) # rest)
    \<and> (\<exists>rest. effects (snd (goToDefinition w serverId fileUri line character reply))
            = effects w @ SendRequest serverId (Definition fileUri line character) # rest)
    \<and> (\<exists>rest. effects (snd (findReferences w serverId fileUri line character includeDeclaration reply))
            = effects w @ SendRequest serverId
                (References fileUri line character includeDeclaration) # rest)
    \<and> (\<exists>rest. effects (snd (renameSymbol w serverId fileUri line character newName reply))
            = effects w @ SendRequest serverId (Rename fileUri line character newName) # rest)
    \<and> (\<exists>rest. effects (snd (formatDocument w serverId fileUri reply))
            = effects w @ SendRequest serverId (Formatting fileUri 2 True) # rest)
    \<and> (\<exists>rest. effects (snd (getDocumentSymbols w serverId fileUri reply))
            = effects w @ SendRequest serverId (DocumentSymbol fileUri) # rest)
    \<and> fst (getCompletions w serverId fileUri line character reply) \<noteq> Inl (DocumentNotOpen u)
    \<and> fst (getHover w serverId fileUri line character reply) \<noteq> Inl (DocumentNotOpen u)
    \<and> fst (goToDefinition w serverId fileUri line character reply) \<noteq> Inl (DocumentNotOpen u)
    \<and> fst (findReferences w serverId fileUri line character includeDeclaration reply)
          \<noteq> Inl (DocumentNotOpen u)
    \<and> fst (renameSymbol w serverId fileUri line character newName reply)
          \<noteq> Inl (DocumentNotOpen u)
    \<and> fst (formatDocument w serverId fileUri reply) \<noteq> Inl (DocumentNotOpen u)
    \<and> fst (getDocumentSymbols w serverId fileUri reply) \<noteq> Inl (DocumentNotOpen u)"
proof -
  have sent:
    "\<exists>rest. effects (snd (case reply of
          Inr result \<Rightarrow> (Inr result, emit req w)
        | Inl err \<Rightarrow> (Inr None, emit (ConsoleError msg) (emit req w))))
      = effects w @ req # rest" for req msg
    by (cases reply) simp_all
  have result:
    "fst (case reply of
          Inr result \<Rightarrow> (Inr result, w1)
        | Inl err \<Rightarrow> (Inr None, w2)) \<noteq> Inl (DocumentNotOpen u)" for w1 w2 :: world
    by (cases reply) simp_all
  show ?thesis
    unfolding getCompletions_def getHover_def goToDefinition_def findReferences_def
      renameSymbol_def formatDocument_def getDocumentSymbols_def Let_def
    using assms by (simp add: sent result)
qed

theorem query_sent_without_open_check_witness:
  "document_of example_world ''s2'' ''file:///tmp/py/never.py'' = None
   \<and> (\<exists>rest. effects (snd (getHover example_world ''s2'' ''file:///tmp/py/never.py'' 0 0 (Inr None)))
         = SendRequest ''s2'' (Hover ''file:///tmp/py/never.py'' 0 0) # rest)
   \<and> fst (getHover example_world ''s2'' ''file:///tmp/py/never.py'' 0 0 (Inr None))
         \<noteq> Inl (DocumentNotOpen ''file:///tmp/py/never.py'')"
proof -
  have closed: "document_of example_world ''s2'' ''file:///tmp/py/never.py'' = None"
    by (simp add: document_of_def example_s2)
  from query_sent_without_open_check [OF example_s2, of "''file:///tmp/py/never.py''" 0 0 "Inr None"
      _ _ "''file:///tmp/py/never.py''"] closed example_effects
  show ?thesis by simp
qed

subsection \<open>Documents\<close>

lemma updateDocument_accepted:
  assumes "document_of w serverId fileUri = Some d"
  shows "fst (updateDocument w serverId fileUri content sent) = sent"
    and "effects (snd (updateDocument w serverId fileUri content sent))
      = effects w @ [SendNotification serverId (DidChange fileUri (doc_version d + 1) content)]"
    and "document_of (snd (updateDocument w serverId fileUri content sent)) serverId fileUri
      = Some \<lparr>doc_uri = fileUri, doc_languageId = doc_languageId d,
               doc_version = doc_version d + 1, doc_content = content\<rparr>"
proof -
  from assms obtain server where live: "map_of (servers w) serverId = Some server"
    and tracked: "map_of (srv_documents server) fileUri = Some d"
    by (auto simp: document_of_def split: option.splits)
  let ?d' = "\<lparr>doc_uri = fileUri, doc_languageId = doc_languageId d,
               doc_version = doc_version d + 1, doc_content = content\<rparr>"
  have run: "updateDocument w serverId fileUri content sent =
      (sent, emit (SendNotification serverId (DidChange fileUri (doc_version d + 1) content))
               (set_documents w serverId (AList.update fileUri ?d' (srv_documents server))))"
    using live tracked by (simp add: updateDocument_def)
  show "fst (updateDocument w serverId fileUri content sent) = sent"
    by (simp add: run)
  show "effects (snd (updateDocument w serverId fileUri content sent))
      = effects w @ [SendNotification serverId (DidChange fileUri (doc_version d + 1) content)]"
    by (simp add: run)
  show "document_of (snd (updateDocument w serverId fileUri content sent)) serverId fileUri
      = Some ?d'"
    using live by (simp add: run document_of_def AList.update_conv')
qed

text \<open>
  A run of updates on an open document: none is refused, the notifications carry the
  versions that follow the current one, and the tracked state ends at the last content.
\<close>

lemma updateDocument_seq_versions:
  assumes "document_of w serverId fileUri = Some d"
    and "updateDocument_seq w serverId fileUri us = (rs, w')"
  shows "rs = map snd us
    \<and> effects w' = effects w @
        map (\<lambda>(v, u). SendNotification serverId (DidChange fileUri v (fst u)))
          (enumerate (doc_version d + 1) us)
    \<and> document_of w' serverId fileUri =
        (if us = [] then Some d
         else Some \<lparr>doc_uri = fileUri, doc_languageId = doc_languageId d,
                    doc_version = doc_version d + length us, doc_content = fst (last us)\<rparr>)"
  using assms
proof (induction us arbitrary: w d rs)
  case Nil
  then show ?case by simp
next
  case (Cons u us)
  let ?d1 = "\<lparr>doc_uri = fileUri, doc_languageId = doc_languageId d,
               doc_version = doc_version d + 1, doc_content = fst u\<rparr>"
  let ?w1 = "snd (updateDocument w serverId fileUri (fst u) (snd u))"
  have r1: "fst (updateDocument w serverId fileUri (fst u) (snd u)) = snd u"
    by (rule updateDocument_accepted(1) [OF Cons.prems(1)])
  have e1: "effects ?w1 = effects w @
      [SendNotification serverId (DidChange fileUri (doc_version d + 1) (fst u))]"
    by (rule updateDocument_accepted(2) [OF Cons.prems(1)])
  have d1: "document_of ?w1 serverId fileUri = Some ?d1"
    by (rule updateDocument_accepted(3) [OF Cons.prems(1)])
  obtain rs1 where rest: "updateDocument_seq ?w1 serverId fileUri us = (rs1, w')"
    and rs: "rs = snd u # rs1"
    using Cons.prems(2) r1 by (auto split: prod.splits)
  from Cons.IH [OF d1 rest] e1 rs show ?case
    by (auto simp: enumerate_simps)
qed

text \<open>
  C4. On a live session, \<^verbatim>\<open>openDocument\<close> tracks the document at version 1 and
  announces it at version 1. Every \<^verbatim>\<open>updateDocument\<close> that follows on that URI is
  accepted (its result is just the way its own notification settled), and the k-th of
  them sends a full-document change carrying version k + 1 and the whole new content:
  the versions are those of \<open>enumerate 2\<close>. After n updates the tracked version is
  n + 1 and the tracked content is the last one sent.
\<close>

theorem open_then_updates_versions:
  assumes "map_of (servers w) serverId = Some server"
    and "openDocument w serverId fileUri content languageId sent = (r0, w0)"
    and "updateDocument_seq w0 serverId fileUri us = (rs, w')"
  shows "r0 = sent
    \<and> document_of w0 serverId fileUri =
        Some \<lparr>doc_uri = fileUri, doc_languageId = languageId, doc_version = 1,
               doc_content = content\<rparr>
    \<and> rs = map snd us
    \<and> effects w' = effects w @
        SendNotification serverId (DidOpen fileUri languageId 1 content) #
        map (\<lambda>(v, u). SendNotification serverId (DidChange fileUri v (fst u)))
          (enumerate 2 us)
    \<and> document_of w' serverId fileUri =
        Some \<lparr>doc_uri = fileUri, doc_languageId = languageId,
               doc_version = length us + 1,
               doc_content = (if us = [] then content else fst (last us))\<rparr>"
proof -
  let ?d0 = "\<lparr>doc_uri = fileUri, doc_languageId = languageId, doc_version = 1,
               doc_content = content\<rparr>"
  from assms(1,2) have r0: "r0 = sent"
    and e0: "effects w0 = effects w @ [SendNotification serverId (DidOpen fileUri languageId 1 content)]"
    and d0: "document_of w0 serverId fileUri = Some ?d0"
    by (auto simp: openDocument_def document_of_def Let_def AList.update_conv')
  from updateDocument_seq_versions [OF d0 assms(3)] r0 e0 d0 show ?thesis
    by (cases "us = []") (simp_all add: numeral_2_eq_2)
qed

text \<open>
  Three updates after an open, the second with a notification that fails to go out:
  versions 2, 3 and 4 are sent, and version 4 is tracked.
\<close>

theorem open_then_updates_versions_witness:
  "effects (snd (updateDocument_seq
       (snd (openDocument example_world ''s2'' ''file:///tmp/py/b.py'' ''x = 0'' ''python'' (Inr ())))
       ''s2'' ''file:///tmp/py/b.py''
       [(''x = 1'', Inr ()), (''x = 2'', Inl (Failure ''write failed'')), (''x = 3'', Inr ())]))
     = [SendNotification ''s2'' (DidOpen ''file:///tmp/py/b.py'' ''python'' 1 ''x = 0''),
        SendNotification ''s2'' (DidChange ''file:///tmp/py/b.py'' 2 ''x = 1''),
        SendNotification ''s2'' (DidChange ''file:///tmp/py/b.py'' 3 ''x = 2''),
        SendNotification ''s2'' (DidChange ''file:///tmp/py/b.py'' 4 ''x = 3'')]
   \<and> document_of (snd (updateDocument_seq
       (snd (openDocument example_world ''s2'' ''file:///tmp/py/b.py'' ''x = 0'' ''python'' (Inr ())))
       ''s2'' ''file:///tmp/py/b.py''
       [(''x = 1'', Inr ()), (''x = 2'', Inl (Failure ''write failed'')), (''x = 3'', Inr ())]))
       ''s2'' ''file:///tmp/py/b.py''
     = Some \<lparr>doc_uri = ''file:///tmp/py/b.py'', doc_languageId = ''python'',
              doc_version = 4, doc_content = ''x = 3''\<rparr>"
proof -
  let ?opened = "openDocument example_world ''s2'' ''file:///tmp/py/b.py'' ''x = 0'' ''python'' (Inr ())"
  let ?us = "[(''x = 1'', Inr ()), (''x = 2'', Inl (Failure ''write failed'')), (''x = 3'', Inr ())]"
  let ?run = "updateDocument_seq (snd ?opened) ''s2'' ''file:///tmp/py/b.py'' ?us"
  have o: "?opened = (fst ?opened, snd ?opened)" by simp
  have u: "?run = (fst ?run, snd ?run)" by simp
  from open_then_updates_versions [OF example_s2 o u] example_effects
  show ?thesis by (simp add: enumerate_simps numeral_2_eq_2 numeral_3_eq_3 eval_nat_numeral)
qed

text \<open>
  C5. On a live session, \<^verbatim>\<open>updateDocument\<close> and \<^verbatim>\<open>closeDocument\<close> on a URI that is
  not open fail with \<open>DocumentNotOpen\<close> and return the state they were given. After a
  \<^verbatim>\<open>closeDocument\<close> the URI is not open, so a following update fails in that way and
  changes nothing, and a following close fails too.
\<close>

theorem not_open_update_close_rejected:
  assumes "map_of (servers w) serverId = Some server"
  shows "(map_of (srv_documents server) fileUri = None \<longrightarrow>
            updateDocument w serverId fileUri content sent = (Inl (DocumentNotOpen fileUri), w)
          \<and> closeDocument w serverId fileUri sent = (Inl (DocumentNotOpen fileUri), w))
    \<and> document_of (snd (closeDocument w serverId fileUri sent)) serverId fileUri = None
    \<and> updateDocument (snd (closeDocument w serverId fileUri sent)) serverId fileUri content sent'
        = (Inl (DocumentNotOpen fileUri), snd (closeDocument w serverId fileUri sent))
    \<and> fst (closeDocument (snd (closeDocument w serverId fileUri sent)) serverId fileUri sent')
        = Inl (DocumentNotOpen fileUri)"
proof -
  let ?w1 = "snd (closeDocument w serverId fileUri sent)"
  have live: "map_of (servers ?w1) serverId \<noteq> None"
    using assms by (simp add: closeDocument_def split: option.splits)
  have closed: "document_of ?w1 serverId fileUri = None"
    using assms by (simp add: closeDocument_def document_of_def split: option.splits)
  from live obtain server1 where s1: "map_of (servers ?w1) serverId = Some server1"
    by blast
  with closed have n1: "map_of (srv_documents server1) fileUri = None"
    by (simp add: document_of_def)
  have "updateDocument w serverId fileUri content sent = (Inl (DocumentNotOpen fileUri), w)"
    and "closeDocument w serverId fileUri sent = (Inl (DocumentNotOpen fileUri), w)"
    if "map_of (srv_documents server) fileUri = None"
    using assms that by (simp_all add: updateDocument_def closeDocument_def)
  moreover have "updateDocument ?w1 serverId fileUri content sent'
      = (Inl (DocumentNotOpen fileUri), ?w1)"
    using s1 n1 by (simp add: updateDocument_def)
  moreover have "fst (closeDocument ?w1 serverId fileUri sent') = Inl (DocumentNotOpen fileUri)"
    using s1 n1 by (simp add: closeDocument_def)
  ultimately show ?thesis using closed by blast
qed

theorem not_open_update_close_rejected_witness:
  "updateDocument example_world ''s2'' ''file:///tmp/py/never.py'' ''x = 1'' (Inr ())
     = (Inl (DocumentNotOpen ''file:///tmp/py/never.py''), example_world)
   \<and> closeDocument example_world ''s2'' ''file:///tmp/py/never.py'' (Inr ())
     = (Inl (DocumentNotOpen ''file:///tmp/py/never.py''), example_world)
   \<and> document_of example_world ''s1'' ''file:///tmp/proj/a.ts'' \<noteq> None
   \<and> fst (closeDocument example_world ''s1'' ''file:///tmp/proj/a.ts'' (Inr ())) = Inr ()
   \<and> updateDocument (snd (closeDocument example_world ''s1'' ''file:///tmp/proj/a.ts'' (Inr ())))
        ''s1'' ''file:///tmp/proj/a.ts'' ''let x = 2;'' (Inr ())
     = (Inl (DocumentNotOpen ''file:///tmp/proj/a.ts''),
        snd (closeDocument example_world ''s1'' ''file:///tmp/proj/a.ts'' (Inr ())))"
proof -
  have never: "map_of (srv_documents \<lparr>srv_id = ''s2'', srv_language = ''python'',
      srv_workspaceUri = ''file:///tmp/py'', srv_documents = [], srv_initialized = True\<rparr>)
      ''file:///tmp/py/never.py'' = None"
    by simp
  have opened: "document_of example_world ''s1'' ''file:///tmp/proj/a.ts'' \<noteq> None"
    by (simp add: document_of_def example_s1)
  have closes: "fst (closeDocument example_world ''s1'' ''file:///tmp/proj/a.ts'' (Inr ())) = Inr ()"
    by (simp add: closeDocument_def example_s1)
  from not_open_update_close_rejected [OF example_s2, of "''file:///tmp/py/never.py''"
      "''x = 1''" "Inr ()" "Inr ()"] never
    not_open_update_close_rejected [OF example_s1, of "''file:///tmp/proj/a.ts''"
      "''let x = 2;''" "Inr ()" "Inr ()"] opened closes
  show ?thesis by blast
qed

text \<open>
  C9. On a live session, \<^verbatim>\<open>openDocument\<close> makes no check of what is tracked for the
  URI: whatever was there, the URI is afterwards tracked at version 1 with the content
  and language id of this call, and the notification sent carries version 1. The
  example re-opens a document that stood at version 3 under another language id.
\<close>

theorem reopen_resets_version:
  assumes "map_of (servers w) serverId = Some server"
  shows "fst (openDocument w serverId fileUri content languageId sent) = sent
    \<and> effects (snd (openDocument w serverId fileUri content languageId sent))
        = effects w @ [SendNotification serverId (DidOpen fileUri languageId 1 content)]
    \<and> document_of (snd (openDocument w serverId fileUri content languageId sent))
          serverId fileUri
        = Some \<lparr>doc_uri = fileUri, doc_languageId = languageId, doc_version = 1,
                 doc_content = content\<rparr>"
  using assms
  by (simp add: openDocument_def document_of_def AList.update_conv')

theorem reopen_resets_version_witness:
  "document_of example_world ''s1'' ''file:///tmp/proj/a.ts''
     = Some \<lparr>doc_uri = ''file:///tmp/proj/a.ts'', doc_languageId = ''typescript'',
              doc_version = 3, doc_content = ''let x = 1;''\<rparr>
   \<and> effects (snd (openDocument example_world ''s1'' ''file:///tmp/proj/a.ts''
          ''print(1)'' ''python'' (Inr ())))
     = [SendNotification ''s1'' (DidOpen ''file:///tmp/proj/a.ts'' ''python'' 1 ''print(1)'')]
   \<and> document_of (snd (openDocument example_world ''s1'' ''file:///tmp/proj/a.ts''
          ''print(1)'' ''python'' (Inr ()))) ''s1'' ''file:///tmp/proj/a.ts''
     = Some \<lparr>doc_uri = ''file:///tmp/proj/a.ts'', doc_languageId = ''python'',
              doc_version = 1, doc_content = ''print(1)''\<rparr>"
proof -
  have before: "document_of example_world ''s1'' ''file:///tmp/proj/a.ts''
     = Some \<lparr>doc_uri = ''file:///tmp/proj/a.ts'', doc_languageId = ''typescript'',
              doc_version = 3, doc_content = ''let x = 1;''\<rparr>"
    by (simp add: document_of_def example_s1)
  from reopen_resets_version [OF example_s1, of "''file:///tmp/proj/a.ts''" "''print(1)''"
      "''python''" "Inr ()"] before example_effects
  show ?thesis by simp
qed

end
